theory Spec2Isabelle
  imports Complex_Main
begin

section \<open>JavaScript values seen by the route handler\<close>

text \<open>
  The chat endpoint is \<^verbatim>\<open>app/api/chat/route.ts\<close>. Its \<^verbatim>\<open>POST\<close> handler reads a session,
  a user row, the JSON body of the request and the request log, and either answers with a
  JSON error, throws, or starts the streamed generation. The model keeps every early
  return and every \<^verbatim>\<open>throw\<close> as a branch of its own.
\<close>

datatype json =
    JNull
  | JBool bool
  | JNum rat
  | JStr string
  | JArr "json list"
  | JObj "(string \<times> json) list"

text \<open>
  A thrown value is an \<^verbatim>\<open>Error\<close> instance (its name and its \<^verbatim>\<open>message\<close>) or any other value,
  kept as the string \<^verbatim>\<open>String(err)\<close> produces for it.
\<close>

datatype thrown = ErrorObj string string | NonError string

text \<open>
  \<^verbatim>\<open>const { messages } = await request.json()\<close>: destructuring \<^verbatim>\<open>null\<close> throws a TypeError
  (the wording of its message is the engine's); an object yields the property, where
  \<^verbatim>\<open>JSON.parse\<close> keeps the last of several equal keys; arrays and primitives have no such
  property, which gives \<^verbatim>\<open>undefined\<close> (\<open>None\<close>).
\<close>

definition destructure_null_message :: string where
  "destructure_null_message = ''Cannot destructure property messages of null''"

fun get_messages :: "json \<Rightarrow> thrown + json option" where
  "get_messages JNull = Inl (ErrorObj ''TypeError'' destructure_null_message)"
| "get_messages (JObj kvs) = Inr (map_of (rev kvs) ''messages'')"
| "get_messages (JArr xs) = Inr None"
| "get_messages (JBool b) = Inr None"
| "get_messages (JNum n) = Inr None"
| "get_messages (JStr s) = Inr None"

text \<open>JavaScript truthiness of a value that came out of \<^verbatim>\<open>JSON.parse\<close>, or of \<^verbatim>\<open>undefined\<close>.\<close>

fun truthy :: "json option \<Rightarrow> bool" where
  "truthy None = False"
| "truthy (Some JNull) = False"
| "truthy (Some (JBool b)) = b"
| "truthy (Some (JNum n)) = (n \<noteq> 0)"
| "truthy (Some (JStr s)) = (s \<noteq> [])"
| "truthy (Some (JArr xs)) = True"
| "truthy (Some (JObj kvs)) = True"

fun isArray :: "json option \<Rightarrow> bool" where
  "isArray (Some (JArr xs)) = True"
| "isArray v = False"

text \<open>\<^verbatim>\<open>messages.length\<close>, read only after \<^verbatim>\<open>Array.isArray(messages)\<close> held.\<close>

fun array_length :: "json option \<Rightarrow> nat" where
  "array_length (Some (JArr xs)) = length xs"
| "array_length v = 0"

fun array_items :: "json option \<Rightarrow> json list" where
  "array_items (Some (JArr xs)) = xs"
| "array_items v = []"

text \<open>The guard of line 42: \<^verbatim>\<open>!messages || !Array.isArray(messages) || messages.length === 0\<close>.\<close>

definition no_messages :: "json option \<Rightarrow> bool" where
  "no_messages messages \<longleftrightarrow>
     \<not> truthy messages \<or> \<not> isArray messages \<or> array_length messages = 0"

section \<open>Session, user store and request log\<close>

record session_user =
  su_id :: string

record session =
  s_user :: "session_user option"

record user_row =
  u_id :: string
  u_isAdmin :: bool

text \<open>
  A row of \<^verbatim>\<open>requestLogs\<close>. Timestamps are microseconds since the epoch, in UTC, which is
  the resolution of the store's timestamps.
\<close>

record log_row =
  l_userId :: string
  l_createdAt :: int

record env =
  DAILY_REQUEST_LIMIT :: int

text \<open>
  What the handler does to the outside, in order: the calls to the session provider and the
  store, and the start of the generation.
\<close>

datatype effect =
    EAuth
  | ESelectUser string
  | ECountLogs string
  | EInsertLog string
  | EStreamText "json list"

text \<open>
  The world of one request: the two tables, the clock, the store's \<^verbatim>\<open>date_trunc('day', _)\<close>,
  which truncates in the time zone of the store's session and is therefore the store's to
  say, and the effects so far.
\<close>

record world =
  users :: "user_row list"
  requestLogs :: "log_row list"
  now :: int
  date_trunc_day :: "int \<Rightarrow> int"
  trace :: "effect list"

definition emit :: "effect \<Rightarrow> world \<Rightarrow> world" where
  "emit e w = w\<lparr>trace := trace w @ [e]\<rparr>"

text \<open>
  \<^verbatim>\<open>!session?.user?.id\<close>: no session, no user in it, or an empty id all take the 401
  branch; otherwise the id is used.
\<close>

definition session_user_id :: "session option \<Rightarrow> string option" where
  "session_user_id sess =
     (case sess of
        None \<Rightarrow> None
      | Some s \<Rightarrow>
          (case s_user s of
             None \<Rightarrow> None
           | Some u \<Rightarrow> if su_id u = [] then None else Some (su_id u)))"

text \<open>\<^verbatim>\<open>select {id, isAdmin} from users where id = ? limit 1\<close>.\<close>

definition select_user :: "user_row list \<Rightarrow> string \<Rightarrow> user_row list" where
  "select_user us sid = take 1 (filter (\<lambda>u. u_id u = sid) us)"

text \<open>
  The row count of \<^verbatim>\<open>requestLogs\<close> where \<^verbatim>\<open>userId\<close> is the user's id and \<^verbatim>\<open>createdAt\<close> is at
  or after \<^verbatim>\<open>date_trunc('day', now())\<close>: an aggregate without grouping returns one row.
\<close>

definition count_logs_today :: "world \<Rightarrow> string \<Rightarrow> nat list" where
  "count_logs_today w uid =
     [length (filter (\<lambda>r. l_userId r = uid \<and> date_trunc_day w (now w) \<le> l_createdAt r)
                     (requestLogs w))]"

text \<open>\<^verbatim>\<open>Number(rows[0]?.count ?? 0)\<close>.\<close>

definition reqCount_of :: "nat list \<Rightarrow> nat" where
  "reqCount_of rows = (case rows of [] \<Rightarrow> 0 | c # _ \<Rightarrow> c)"

text \<open>
  \<^verbatim>\<open>db.insert(requestLogs).values({ userId })\<close>: the row's \<^verbatim>\<open>createdAt\<close> is left to the
  column default, the time of the insert.
\<close>

definition insert_log :: "string \<Rightarrow> world \<Rightarrow> world" where
  "insert_log uid w =
     emit (EInsertLog uid)
       (w\<lparr>requestLogs := requestLogs w @ [\<lparr>l_userId = uid, l_createdAt = now w\<rparr>]\<rparr>)"

section \<open>The handler\<close>

datatype response =
    JsonError nat string
  | UIMessageStream

datatype outcome = Returned response | Threw thrown

text \<open>
  Lines 46 to 66: the count is queried only for a user who is not an admin; the result is
  the 429 response when the request is refused, \<open>None\<close> when it may go on.
\<close>

definition rate_limit :: "env \<Rightarrow> user_row \<Rightarrow> world \<Rightarrow> response option \<times> world" where
  "rate_limit ev dbUser w =
     (let DAILY_LIMIT = DAILY_REQUEST_LIMIT ev in
      if \<not> u_isAdmin dbUser then
        (let w' = emit (ECountLogs (u_id dbUser)) w;
             rows = count_logs_today w' (u_id dbUser);
             reqCount = reqCount_of rows
         in if DAILY_LIMIT \<le> int reqCount
            then (Some (JsonError 429 ''Daily request limit reached''), w')
            else (None, w'))
      else (None, w))"

text \<open>
  \<^verbatim>\<open>convertToModelMessages\<close> is imported from the generation library and is a parameter
  here: it turns the messages of the body into the messages of the model, or throws when
  an element is not a message it knows.
\<close>

type_synonym converter = "json list \<Rightarrow> thrown + json list"

text \<open>
  Lines 68 to 144: the request is recorded; then the argument of \<^verbatim>\<open>streamText\<close> is built,
  where \<^verbatim>\<open>convertToModelMessages(messages)\<close> may throw; then the generation is started and
  its stream returned.
\<close>

definition record_and_stream ::
  "converter \<Rightarrow> user_row \<Rightarrow> json option \<Rightarrow> world \<Rightarrow> outcome \<times> world" where
  "record_and_stream convertToModelMessages dbUser messages w =
     (let w' = insert_log (u_id dbUser) w in
      case convertToModelMessages (array_items messages) of
        Inl e \<Rightarrow> (Threw e, w')
      | Inr modelMessages \<Rightarrow> (Returned UIMessageStream, emit (EStreamText modelMessages) w'))"

definition POST ::
  "converter \<Rightarrow> env \<Rightarrow> session option \<Rightarrow> thrown + json \<Rightarrow> world \<Rightarrow> outcome \<times> world" where
  "POST convertToModelMessages ev sess body w0 =
     (let w1 = emit EAuth w0 in
      case session_user_id sess of
        None \<Rightarrow> (Returned (JsonError 401 ''Unauthorized''), w1)
      | Some sid \<Rightarrow>
          (let w2 = emit (ESelectUser sid) w1 in
           case select_user (users w2) sid of
             [] \<Rightarrow> (Returned (JsonError 401 ''User not found''), w2)
           | dbUser # _ \<Rightarrow>
               (case body of
                  Inl e \<Rightarrow> (Threw e, w2)
                | Inr parsed \<Rightarrow>
                    (case get_messages parsed of
                       Inl e \<Rightarrow> (Threw e, w2)
                     | Inr messages \<Rightarrow>
                         if no_messages messages
                         then (Threw (ErrorObj ''Error'' ''No messages provided''), w2)
                         else
                           (case rate_limit ev dbUser w2 of
                              (Some denied, w3) \<Rightarrow> (Returned denied, w3)
                            | (None, w3) \<Rightarrow>
                                record_and_stream convertToModelMessages dbUser messages w3)))))"

text \<open>
  The count the quota is about: the events of one identity at or after the start of the
  current day.
\<close>

definition events_today :: "world \<Rightarrow> string \<Rightarrow> nat" where
  "events_today w uid =
     length (filter (\<lambda>r. l_userId r = uid \<and> date_trunc_day w (now w) \<le> l_createdAt r)
                    (requestLogs w))"

text \<open>A request reaches the quota gate when its identity resolves and its body has messages.\<close>

definition reaches_gate :: "session option \<Rightarrow> thrown + json \<Rightarrow> world \<Rightarrow> user_row \<Rightarrow> bool" where
  "reaches_gate sess body w dbUser \<longleftrightarrow>
     (case session_user_id sess of
        None \<Rightarrow> False
      | Some sid \<Rightarrow>
          (case select_user (users w) sid of
             [] \<Rightarrow> False
           | u # _ \<Rightarrow>
               u = dbUser \<and>
               (case body of
                  Inl e \<Rightarrow> False
                | Inr parsed \<Rightarrow>
                    (case get_messages parsed of
                       Inl e \<Rightarrow> False
                     | Inr messages \<Rightarrow> \<not> no_messages messages))))"

text \<open>The messages of a body, as the handler hands them to the conversion.\<close>

definition request_messages :: "thrown + json \<Rightarrow> json list" where
  "request_messages body =
     (case body of
        Inl e \<Rightarrow> []
      | Inr parsed \<Rightarrow>
          (case get_messages parsed of Inl e \<Rightarrow> [] | Inr messages \<Rightarrow> array_items messages))"

text \<open>
  The gate refuses a request by answering 429; a request that reaches the gate and is not
  refused is allowed. What an allowed request ends in is decided by the conversion.
\<close>

definition refused :: "outcome \<Rightarrow> bool" where
  "refused out \<longleftrightarrow> out = Returned (JsonError 429 ''Daily request limit reached'')"

definition after_gate :: "converter \<Rightarrow> json list \<Rightarrow> outcome" where
  "after_gate convertToModelMessages msgs =
     (case convertToModelMessages msgs of
        Inl e \<Rightarrow> Threw e
      | Inr modelMessages \<Rightarrow> Returned UIMessageStream)"

text \<open>
  The effects that matter for the quota and the cost of a request: writing a log row and
  starting the generation. \<open>effects_of w w'\<close> are the effects added on the way from \<open>w\<close>
  to \<open>w'\<close>.
\<close>

fun records_or_generates :: "effect \<Rightarrow> bool" where
  "records_or_generates (EInsertLog uid) = True"
| "records_or_generates (EStreamText msgs) = True"
| "records_or_generates e = False"

definition effects_of :: "world \<Rightarrow> world \<Rightarrow> effect list" where
  "effects_of w w' = drop (length (trace w)) (trace w')"

text \<open>
  A small store for running the handler: one ordinary user with two requests today and one
  yesterday, one admin, on the fourth day of the epoch, with the session of the store at
  UTC.
\<close>

definition micros_per_day :: int where
  "micros_per_day = 86400000000"

definition utc_midnight :: "int \<Rightarrow> int" where
  "utc_midnight t = t - t mod micros_per_day"

definition alice :: user_row where
  "alice = \<lparr>u_id = ''alice'', u_isAdmin = False\<rparr>"

definition root_user :: user_row where
  "root_user = \<lparr>u_id = ''root'', u_isAdmin = True\<rparr>"

definition demo_world :: world where
  "demo_world =
     \<lparr>users = [alice, root_user],
      requestLogs =
        [\<lparr>l_userId = ''alice'', l_createdAt = 172800000005\<rparr>,
         \<lparr>l_userId = ''alice'', l_createdAt = 259200000000\<rparr>,
         \<lparr>l_userId = ''root'', l_createdAt = 259200000001\<rparr>,
         \<lparr>l_userId = ''alice'', l_createdAt = 259200000005\<rparr>],
      now = 259200000077,
      date_trunc_day = utc_midnight,
      trace = []\<rparr>"

definition session_of :: "string \<Rightarrow> session option" where
  "session_of uid = Some \<lparr>s_user = Some \<lparr>su_id = uid\<rparr>\<rparr>"

text \<open>
  A body with one user message, a body whose one message is a bare string, and a
  conversion that takes the first and throws on the second.
\<close>

definition hello_message :: json where
  "hello_message =
     JObj [(''id'', JStr ''m1''), (''role'', JStr ''user''),
           (''parts'', JArr [JObj [(''type'', JStr ''text''), (''text'', JStr ''hello'')]])]"

definition hello_body :: "thrown + json" where
  "hello_body = Inr (JObj [(''messages'', JArr [hello_message])])"

definition bare_body :: "thrown + json" where
  "bare_body = Inr (JObj [(''messages'', JArr [JStr ''hello''])])"

fun is_ui_message :: "json \<Rightarrow> bool" where
  "is_ui_message (JObj kvs) =
     ((map_of kvs ''role'' = Some (JStr ''user'') \<or>
       map_of kvs ''role'' = Some (JStr ''assistant'') \<or>
       map_of kvs ''role'' = Some (JStr ''system'')) \<and>
      isArray (map_of kvs ''parts''))"
| "is_ui_message v = False"

definition strict_converter :: converter where
  "strict_converter msgs =
     (if list_all is_ui_message msgs then Inr msgs
      else Inl (ErrorObj ''MessageConversionError'' ''Unsupported role''))"

definition limit_of :: "int \<Rightarrow> env" where
  "limit_of n = \<lparr>DAILY_REQUEST_LIMIT = n\<rparr>"

section \<open>The searchWeb tool\<close>

text \<open>
  The tool's \<^verbatim>\<open>execute\<close> (lines 88 to 104) calls \<^verbatim>\<open>searchSerper\<close>, which lives outside the
  handler and is a parameter here: given the arguments and the abort signal it returns the
  provider's response or throws. A row of the provider's organic results carries more than
  the three fields the tool keeps.
\<close>

record organic_result =
  r_title :: string
  r_link :: string
  r_snippet :: string
  r_position :: nat

record serper_response =
  organic :: "organic_result list"

record search_input =
  arg_q :: string
  arg_num :: nat

record result_item =
  title :: string
  link :: string
  snippet :: string

type_synonym 'sig search_provider = "search_input \<Rightarrow> 'sig \<Rightarrow> thrown + serper_response"

text \<open>
  One run of \<^verbatim>\<open>execute\<close>: the calls it made to the provider, what it wrote with
  \<^verbatim>\<open>console.error\<close>, and what it handed back (\<open>Inl\<close> would be an exception leaving it).
\<close>

record 'sig tool_run =
  provider_calls :: "(search_input \<times> 'sig) list"
  console_error :: "string list"
  returned :: "thrown + result_item list"

text \<open>\<^verbatim>\<open>err instanceof Error ? err.message : String(err)\<close>.\<close>

fun error_message :: "thrown \<Rightarrow> string" where
  "error_message (ErrorObj nm msg) = msg"
| "error_message (NonError str) = str"

definition pick_fields :: "organic_result \<Rightarrow> result_item" where
  "pick_fields r = \<lparr>title = r_title r, link = r_link r, snippet = r_snippet r\<rparr>"

definition execute :: "'sig search_provider \<Rightarrow> string \<Rightarrow> 'sig \<Rightarrow> 'sig tool_run" where
  "execute searchSerper query abortSignal =
     (let args = \<lparr>arg_q = query, arg_num = 10\<rparr> in
      case searchSerper args abortSignal of
        Inr results \<Rightarrow>
          \<lparr>provider_calls = [(args, abortSignal)],
           console_error = [],
           returned = Inr (map pick_fields (organic results))\<rparr>
      | Inl err \<Rightarrow>
          (let message = error_message err in
           \<lparr>provider_calls = [(args, abortSignal)],
            console_error = [''searchWeb tool error: '' @ message],
            returned = Inr [\<lparr>title = ''Search error'', link = [], snippet = message\<rparr>]\<rparr>))"

text \<open>A provider that answers every query with eleven organic rows.\<close>

definition eleven_rows :: "organic_result list" where
  "eleven_rows =
     map (\<lambda>i. \<lparr>r_title = ''t'', r_link = ''https://example.org'', r_snippet = ''s'',
               r_position = i\<rparr>) [1, 2, 3, 4, 5, 6, 7, 8, 9, 10, 11]"

definition generous_provider :: "unit search_provider" where
  "generous_provider args sg = Inr \<lparr>organic = eleven_rows\<rparr>"

definition returned_items :: "'sig tool_run \<Rightarrow> result_item list" where
  "returned_items run = (case returned run of Inr xs \<Rightarrow> xs | Inl e \<Rightarrow> [])"

text \<open>A provider that fails with a network error, and one that answers with two rows.\<close>

definition failing_provider :: "unit search_provider" where
  "failing_provider args sg = Inl (ErrorObj ''TypeError'' ''fetch failed'')"

definition two_rows :: serper_response where
  "two_rows =
     \<lparr>organic = [\<lparr>r_title = ''A'', r_link = ''https://a.example'', r_snippet = ''a'',
                  r_position = 1\<rparr>,
                 \<lparr>r_title = ''B'', r_link = ''https://b.example'', r_snippet = ''b'',
                  r_position = 2\<rparr>]\<rparr>"

definition two_rows_provider :: "unit search_provider" where
  "two_rows_provider args sg = Inr two_rows"

section \<open>The options of the generation and its step loop\<close>

text \<open>
  One step of the generation as the loop sees it: the text the model produced, the tool
  calls it asked for, and the output of each.
\<close>

record tool_call =
  call_id :: nat
  call_query :: string

record step =
  step_text :: "string list"
  step_calls :: "tool_call list"
  step_outputs :: "(thrown + result_item list) list"

text \<open>
  Modelled from the spec: \<^verbatim>\<open>stepCountIs\<close>, imported from the generation library and not
  among the sources. It is the stop condition that holds when the step count has reached
  \<open>n\<close>, that is, when the number of finished steps is \<open>n\<close>.
\<close>

definition stepCountIs :: "nat \<Rightarrow> step list \<Rightarrow> bool" where
  "stepCountIs n steps \<longleftrightarrow> length steps = n"

text \<open>
  The options \<^verbatim>\<open>POST\<close> passes to \<^verbatim>\<open>streamText\<close> (lines 71 to 142) that steer the loop; the
  system prompt, the tool table and the logging hooks are left out.
\<close>

record stream_options =
  opt_messages :: "json list"
  opt_toolChoice :: string
  opt_maxRetries :: nat
  opt_stopWhen :: "step list \<Rightarrow> bool"
  opt_includeRawChunks :: bool

definition streamText_options :: "json list \<Rightarrow> stream_options" where
  "streamText_options msgs =
     \<lparr>opt_messages = msgs,
      opt_toolChoice = ''auto'',
      opt_maxRetries = 3,
      opt_stopWhen = stepCountIs 10,
      opt_includeRawChunks = True\<rparr>"

datatype stream_event =
    TextDelta string
  | ToolCallStart nat
  | ToolCallResult nat "result_item list"
  | ToolCallError nat string
  | StepBoundary
  | ErrorEvent string
  | Done

text \<open>
  What one call of the language model gives for the steps so far; the second argument
  counts the attempts already made for this step.
\<close>

datatype model_reply =
    Generated "string list" "tool_call list"
  | TransientFailure string
  | FatalFailure string

type_synonym language_model = "step list \<Rightarrow> nat \<Rightarrow> model_reply"

text \<open>
  Modelled from the spec: the retry of a model call, which belongs to \<^verbatim>\<open>streamText\<close> of the
  generation library and is not among the sources. A transient failure is tried again while
  retries are left; when they are used up, or on a failure that is not transient, the call
  fails with the message.
\<close>

fun call_model ::
  "language_model \<Rightarrow> step list \<Rightarrow> nat \<Rightarrow> nat \<Rightarrow> string + (string list \<times> tool_call list)" where
  "call_model m ctx attempt 0 =
     (case m ctx attempt of
        Generated deltas calls \<Rightarrow> Inr (deltas, calls)
      | FatalFailure e \<Rightarrow> Inl e
      | TransientFailure e \<Rightarrow> Inl e)"
| "call_model m ctx attempt (Suc retries_left) =
     (case m ctx attempt of
        Generated deltas calls \<Rightarrow> Inr (deltas, calls)
      | FatalFailure e \<Rightarrow> Inl e
      | TransientFailure e \<Rightarrow> call_model m ctx (Suc attempt) retries_left)"

definition tool_events :: "tool_call \<Rightarrow> thrown + result_item list \<Rightarrow> stream_event list" where
  "tool_events c out =
     (case out of
        Inr items \<Rightarrow> [ToolCallStart (call_id c), ToolCallResult (call_id c) items]
      | Inl err \<Rightarrow> [ToolCallStart (call_id c), ToolCallError (call_id c) (error_message err)])"

definition step_events :: "step \<Rightarrow> stream_event list" where
  "step_events st =
     map TextDelta (step_text st) @
     concat (map (\<lambda>(c, out). tool_events c out) (zip (step_calls st) (step_outputs st))) @
     [StepBoundary]"

text \<open>
  Modelled from the spec: the step loop of \<^verbatim>\<open>streamText\<close>, which belongs to the generation
  library and is not among the sources. The model generates; the tool runs for each call it
  asked for; the step is closed; the loop ends with \<open>Done\<close> when the step asked for no tool
  call or the stop condition holds of the steps so far, and goes on otherwise. A model call
  that fails ends the stream with an error event. The result is \<open>None\<close> when the loop does
  not end.
\<close>

partial_function (option) run_steps ::
  "stream_options \<Rightarrow> language_model \<Rightarrow> (string \<Rightarrow> thrown + result_item list) \<Rightarrow>
   step list \<Rightarrow> stream_event list \<Rightarrow> (stream_event list \<times> step list) option" where
  "run_steps opts m invoke steps evs =
     (case call_model m steps 0 (opt_maxRetries opts) of
        Inl e \<Rightarrow> Some (evs @ [ErrorEvent e], steps)
      | Inr (deltas, calls) \<Rightarrow>
          (let st = \<lparr>step_text = deltas, step_calls = calls,
                     step_outputs = map (\<lambda>c. invoke (call_query c)) calls\<rparr>;
               steps' = steps @ [st];
               evs' = evs @ step_events st
           in if calls = [] \<or> opt_stopWhen opts steps'
              then Some (evs' @ [Done], steps')
              else run_steps opts m invoke steps' evs'))"

declare run_steps.simps [code]

definition streamText ::
  "stream_options \<Rightarrow> language_model \<Rightarrow> (string \<Rightarrow> thrown + result_item list) \<Rightarrow>
   (stream_event list \<times> step list) option" where
  "streamText opts m invoke = run_steps opts m invoke [] []"

text \<open>The tool as the loop calls it: \<^verbatim>\<open>execute\<close> over a provider, with the request's signal.\<close>

definition searchWeb :: "'sig search_provider \<Rightarrow> 'sig \<Rightarrow> string \<Rightarrow> thrown + result_item list" where
  "searchWeb searchSerper abortSignal query = returned (execute searchSerper query abortSignal)"

text \<open>A model that asks for one search on every step, whatever came before.\<close>

definition always_searching :: language_model where
  "always_searching ctx attempt =
     Generated [''Looking it up''] [\<lparr>call_id = length ctx, call_query = ''capital of France''\<rparr>]"

section \<open>The chat page: what a message shows\<close>

text \<open>
  The page (\<^verbatim>\<open>ChatPage\<close>) reads the parts of a message dynamically: the type string, the
  text when there is one, and for a tool part its state and its output. A field that is
  absent, \<^verbatim>\<open>null\<close> or \<^verbatim>\<open>undefined\<close> is \<open>None\<close>; an output that is not an array is \<open>None\<close>.
\<close>

record client_item =
  i_title :: "string option"
  i_name :: "string option"
  i_link :: "string option"
  i_url :: "string option"
  i_snippet :: "string option"
  i_description :: "string option"

record part =
  p_type :: string
  p_text :: "string option"
  p_state :: string
  p_output :: "client_item list option"

record message =
  m_id :: string
  m_role :: string
  m_parts :: "part list option"

text \<open>\<^verbatim>\<open>Array.prototype.find\<close>: the first element the predicate holds of, from the left.\<close>

fun js_find :: "('a \<Rightarrow> bool) \<Rightarrow> 'a list \<Rightarrow> 'a option" where
  "js_find P [] = None"
| "js_find P (x # xs) = (if P x then Some x else js_find P xs)"

text \<open>\<^verbatim>\<open>a ?? b\<close> on a string that may be missing.\<close>

definition nullish :: "string option \<Rightarrow> string \<Rightarrow> string" where
  "nullish a b = (case a of None \<Rightarrow> b | Some v \<Rightarrow> v)"

text \<open>Lines 90 to 98: the text handed to \<^verbatim>\<open>ChatMessage\<close>.\<close>

definition message_text :: "message \<Rightarrow> string" where
  "message_text msg =
     (case m_parts msg of
        None \<Rightarrow> []
      | Some parts \<Rightarrow>
          (case js_find (\<lambda>p. p_type p = ''text'') parts of
             None \<Rightarrow> []
           | Some textPart \<Rightarrow> nullish (p_text textPart) []))"

text \<open>\<^verbatim>\<open>String(n)\<close> for an index: its decimal digits.\<close>

definition digit_char :: "nat \<Rightarrow> char" where
  "digit_char d = char_of (48 + d)"

fun decimal :: "nat \<Rightarrow> string" where
  "decimal n = (if n < 10 then [digit_char n] else decimal (n div 10) @ [digit_char (n mod 10)])"

declare decimal.simps [simp del]

text \<open>
  \<^verbatim>\<open>isToolUIPart\<close> of the generation library holds of the parts whose type starts with
  \<^verbatim>\<open>tool-\<close>; \<^verbatim>\<open>String(tp.type).replace(/^tool-/, "")\<close> drops that prefix when it is there.
\<close>

definition isToolUIPart :: "part \<Rightarrow> bool" where
  "isToolUIPart p \<longleftrightarrow> take 5 (p_type p) = ''tool-''"

definition tool_name :: "part \<Rightarrow> string" where
  "tool_name tp = (if take 5 (p_type tp) = ''tool-'' then drop 5 (p_type tp) else p_type tp)"

definition tool_parts :: "message \<Rightarrow> part list" where
  "tool_parts msg = (case m_parts msg of None \<Rightarrow> [] | Some parts \<Rightarrow> filter isToolUIPart parts)"

definition toolRunning :: "message \<Rightarrow> bool" where
  "toolRunning msg \<longleftrightarrow>
     (\<exists>tp \<in> set (tool_parts msg). p_state tp = ''input-streaming'' \<or> p_state tp = ''input-available'')"

subsection \<open>One result item\<close>

text \<open>
  Lines 185 to 218. The title is an anchor that opens the link in a new tab, or a red span;
  the snippet is shown when it is not empty, red for an error item; the link is repeated as
  plain text when it is not empty.
\<close>

datatype title_node = Anchor string string | RedSpan string

record item_view =
  iv_title :: title_node
  iv_snippet :: "(bool \<times> string) option"
  iv_link_text :: "string option"

definition item_title :: "nat \<Rightarrow> client_item \<Rightarrow> string" where
  "item_title idx item =
     nullish (i_title item) (nullish (i_name item) (''Result '' @ decimal (idx + 1)))"

definition item_link :: "client_item \<Rightarrow> string" where
  "item_link item = nullish (i_link item) (nullish (i_url item) [])"

definition item_snippet :: "client_item \<Rightarrow> string" where
  "item_snippet item = nullish (i_snippet item) (nullish (i_description item) [])"

definition isError :: "nat \<Rightarrow> client_item \<Rightarrow> bool" where
  "isError idx item \<longleftrightarrow> item_title idx item = ''Search error'' \<or> item_link item = []"

definition render_item :: "nat \<Rightarrow> client_item \<Rightarrow> item_view" where
  "render_item idx item =
     (let title = item_title idx item;
          link = item_link item;
          snippet = item_snippet item
      in \<lparr>iv_title = (if link \<noteq> [] then Anchor link title else RedSpan title),
          iv_snippet = (if snippet \<noteq> [] then Some (isError idx item, snippet) else None),
          iv_link_text = (if link \<noteq> [] then Some link else None)\<rparr>)"

definition has_hyperlink :: "item_view \<Rightarrow> bool" where
  "has_hyperlink v = (case iv_title v of Anchor href txt \<Rightarrow> True | RedSpan txt \<Rightarrow> False)"

text \<open>An item of the tool as the page receives it: the three fields, all present.\<close>

definition received :: "result_item \<Rightarrow> client_item" where
  "received it =
     \<lparr>i_title = Some (title it), i_name = None, i_link = Some (link it), i_url = None,
      i_snippet = Some (snippet it), i_description = None\<rparr>"

text \<open>An item named like an error that carries a link all the same.\<close>

definition linked_error_item :: client_item where
  "linked_error_item =
     \<lparr>i_title = Some ''Search error'', i_name = None, i_link = Some ''https://example.org/status'',
      i_url = None, i_snippet = Some ''Search error: what it means'', i_description = None\<rparr>"

subsection \<open>Expanding and collapsing the results of a tool call\<close>

text \<open>
  \<^verbatim>\<open>expandedResults\<close> is a \<^verbatim>\<open>Record<string, boolean>\<close>, empty at first. A panel's key is
  \<^verbatim>\<open>`${message.id}-${index}`\<close>; the button replaces the record by
  \<^verbatim>\<open>{...prev, [key]: !prev[key]}\<close>; the list is open when \<^verbatim>\<open>!!expandedResults[key]\<close>.
\<close>

type_synonym expanded = "string \<rightharpoonup> bool"

definition initial_expanded :: expanded where
  "initial_expanded = Map.empty"

definition result_key :: "string \<Rightarrow> nat \<Rightarrow> string" where
  "result_key mid index = mid @ ''-'' @ decimal index"

definition is_expanded :: "expanded \<Rightarrow> string \<Rightarrow> bool" where
  "is_expanded ex k = (case ex k of None \<Rightarrow> False | Some b \<Rightarrow> b)"

definition toggle :: "string \<Rightarrow> expanded \<Rightarrow> expanded" where
  "toggle k prev = prev(k \<mapsto> \<not> is_expanded prev k)"

text \<open>
  Lines 145 to 224: the panel of one tool part. The button and the list exist only when the
  output is an array with at least one item.
\<close>

record tool_panel =
  tp_key :: string
  tp_toolName :: string
  tp_count :: nat
  tp_button :: "string option"
  tp_list :: "(bool \<times> item_view list) option"

definition output_items :: "part \<Rightarrow> client_item list" where
  "output_items tp = (case p_output tp of None \<Rightarrow> [] | Some xs \<Rightarrow> xs)"

definition render_items :: "client_item list \<Rightarrow> item_view list" where
  "render_items xs = map (\<lambda>(idx, item). render_item idx item) (zip [0..<length xs] xs)"

definition render_panel :: "expanded \<Rightarrow> string \<Rightarrow> nat \<Rightarrow> part \<Rightarrow> tool_panel" where
  "render_panel ex mid index tp =
     (let key = result_key mid index;
          count = length (output_items tp);
          hasList = (output_items tp \<noteq> [])
      in \<lparr>tp_key = key,
          tp_toolName = tool_name tp,
          tp_count = count,
          tp_button =
            (if hasList then Some (if is_expanded ex key then ''Hide'' else ''Show'') else None),
          tp_list =
            (if hasList then Some (is_expanded ex key, render_items (output_items tp))
             else None)\<rparr>)"

definition render_panels :: "expanded \<Rightarrow> message \<Rightarrow> tool_panel list" where
  "render_panels ex msg =
     map (\<lambda>(index, tp). render_panel ex (m_id msg) index tp)
         (zip [0..<length (tool_parts msg)] (tool_parts msg))"

section \<open>The chat page: submitting\<close>

text \<open>The status of \<^verbatim>\<open>useChat\<close>: \<^verbatim>\<open>ready\<close>, \<^verbatim>\<open>submitted\<close>, \<^verbatim>\<open>streaming\<close> or \<^verbatim>\<open>error\<close>.\<close>

datatype chat_status = StReady | StSubmitted | StStreaming | StError

text \<open>A string of the page is a sequence of UTF-16 code units.\<close>

type_synonym js_string = "nat list"

text \<open>
  What one render of the page closes over: the component's state and what the hooks gave
  that render. The submit handler and the \<^verbatim>\<open>disabled\<close> attributes are made by a render and
  read these values, not later ones.
\<close>

record client =
  input :: js_string
  status :: chat_status
  isAuthenticated :: bool
  showSignInModal :: bool
  expandedResults :: expanded

text \<open>
  \<^verbatim>\<open>!input?.trim()\<close>: \<^verbatim>\<open>trim\<close> strips white space and line terminators from both ends, which
  are the code units TAB, LF, VT, FF, CR, SP, NBSP, U+1680, U+2000 to U+200A, U+2028,
  U+2029, U+202F, U+205F, U+3000 and U+FEFF.
\<close>

definition js_space :: "nat \<Rightarrow> bool" where
  "js_space u \<longleftrightarrow>
     u \<in> set [0x09, 0x0A, 0x0B, 0x0C, 0x0D, 0x20, 0xA0, 0x1680,
              0x2000, 0x2001, 0x2002, 0x2003, 0x2004, 0x2005, 0x2006, 0x2007, 0x2008, 0x2009,
              0x200A, 0x2028, 0x2029, 0x202F, 0x205F, 0x3000, 0xFEFF]"

definition trim :: "js_string \<Rightarrow> js_string" where
  "trim s = rev (dropWhile js_space (rev (dropWhile js_space s)))"

definition streaming_or_submitted :: "client \<Rightarrow> bool" where
  "streaming_or_submitted c \<longleftrightarrow> status c = StStreaming \<or> status c = StSubmitted"

text \<open>
  Lines 54 to 66, up to the first \<^verbatim>\<open>await\<close>: the handler returns at once, opens the sign-in
  dialog, or calls \<^verbatim>\<open>sendMessage\<close> with the input.
\<close>

datatype submit_action = ReturnEarly | OpenSignIn | SendMessage js_string

definition onFormSubmit :: "client \<Rightarrow> submit_action" where
  "onFormSubmit c =
     (if trim (input c) = [] \<or> status c = StStreaming \<or> status c = StSubmitted then ReturnEarly
      else if \<not> isAuthenticated c then OpenSignIn
      else SendMessage (input c))"

text \<open>Lines 249 to 263: the \<^verbatim>\<open>disabled\<close> attributes of the input field and of the button.\<close>

definition input_disabled :: "client \<Rightarrow> bool" where
  "input_disabled c \<longleftrightarrow> status c = StStreaming \<or> status c = StSubmitted \<or> \<not> isAuthenticated c"

definition button_disabled :: "client \<Rightarrow> bool" where
  "button_disabled c \<longleftrightarrow>
     status c = StStreaming \<or> status c = StSubmitted \<or> trim (input c) = [] \<or>
     \<not> isAuthenticated c"

text \<open>
  Submit events that reach the form before the page is rendered again all run the handler
  of the same render, on the same values: what \<open>n\<close> such events do, and the texts they
  hand to \<^verbatim>\<open>sendMessage\<close>.
\<close>

definition handle_submits :: "client \<Rightarrow> nat \<Rightarrow> submit_action list" where
  "handle_submits c n = replicate n (onFormSubmit c)"

fun sendMessage_calls :: "submit_action list \<Rightarrow> js_string list" where
  "sendMessage_calls [] = []"
| "sendMessage_calls (SendMessage txt # acts) = txt # sendMessage_calls acts"
| "sendMessage_calls (act # acts) = sendMessage_calls acts"

text \<open>
  A message with a search and two text parts; a render in the middle of a stream; and a
  render of the idle page of a signed-in user who has typed \<^verbatim>\<open>France?\<close>.
\<close>

definition search_part :: part where
  "search_part =
     \<lparr>p_type = ''tool-searchWeb'', p_text = None, p_state = ''output-available'',
      p_output =
        Some [received \<lparr>title = ''Paris'', link = ''https://en.wikipedia.org/wiki/Paris'',
                        snippet = ''Capital of France''\<rparr>]\<rparr>"

definition text_part :: "string \<Rightarrow> part" where
  "text_part s = \<lparr>p_type = ''text'', p_text = Some s, p_state = [], p_output = None\<rparr>"

definition demo_message :: message where
  "demo_message =
     \<lparr>m_id = ''msg1'', m_role = ''assistant'',
      m_parts = Some [search_part, text_part ''Paris.'', text_part ''It is on the Seine.'']\<rparr>"

definition france_question :: js_string where
  "france_question = [70, 114, 97, 110, 99, 101, 63]"

definition busy_client :: client where
  "busy_client =
     \<lparr>input = france_question, status = StStreaming, isAuthenticated = True,
      showSignInModal = False, expandedResults = initial_expanded\<rparr>"

definition ready_client :: client where
  "ready_client =
     \<lparr>input = france_question, status = StReady, isAuthenticated = True,
      showSignInModal = False, expandedResults = initial_expanded\<rparr>"

text \<open>A model that searches once and then answers.\<close>

definition search_then_answer :: language_model where
  "search_then_answer ctx attempt =
     (if ctx = [] then Generated [] [\<lparr>call_id = 0, call_query = ''capital of France''\<rparr>]
      else Generated [''I could not search.''] [])"

section \<open>Properties of the handler\<close>

lemma emit_fields [simp]:
  "users (emit e w) = users w"
  "requestLogs (emit e w) = requestLogs w"
  "now (emit e w) = now w"
  "date_trunc_day (emit e w) = date_trunc_day w"
  "trace (emit e w) = trace w @ [e]"
  by (simp_all add: emit_def)

lemma insert_log_fields [simp]:
  "users (insert_log uid w) = users w"
  "requestLogs (insert_log uid w) = requestLogs w @ [\<lparr>l_userId = uid, l_createdAt = now w\<rparr>]"
  "now (insert_log uid w) = now w"
  "trace (insert_log uid w) = trace w @ [EInsertLog uid]"
  by (simp_all add: insert_log_def)

lemma effects_of_append [simp]: "trace w' = trace w @ es \<Longrightarrow> effects_of w w' = es"
  by (simp add: effects_of_def)

text \<open>The row the handler works with carries the id of the session.\<close>

lemma select_user_id:
  assumes "select_user us sid = u # rest"
  shows "u_id u = sid"
proof -
  from assms have "u \<in> set (take 1 (filter (\<lambda>u. u_id u = sid) us))"
    by (simp add: select_user_def)
  then have "u \<in> set (filter (\<lambda>u. u_id u = sid) us)"
    by (rule in_set_takeD)
  then show ?thesis by simp
qed

lemma events_today_emit [simp]: "events_today (emit e w) uid = events_today w uid"
  by (simp add: events_today_def)

lemma count_logs_today_eq: "reqCount_of (count_logs_today w uid) = events_today w uid"
  by (simp add: reqCount_of_def count_logs_today_def events_today_def)

text \<open>The guard on the body lets through exactly the arrays that are not empty.\<close>

lemma no_messages_iff: "no_messages field \<longleftrightarrow> (\<forall>xs. field = Some (JArr xs) \<longrightarrow> xs = [])"
proof (cases field)
  case None
  then show ?thesis by (simp add: no_messages_def)
next
  case (Some v)
  then show ?thesis by (cases v) (simp_all add: no_messages_def)
qed

lemma rate_limit_cases:
  "rate_limit ev dbUser w = (None, w) \<and> u_isAdmin dbUser \<or>
   rate_limit ev dbUser w = (None, emit (ECountLogs (u_id dbUser)) w) \<and> \<not> u_isAdmin dbUser \<or>
   rate_limit ev dbUser w =
     (Some (JsonError 429 ''Daily request limit reached''), emit (ECountLogs (u_id dbUser)) w)"
  by (simp add: rate_limit_def Let_def)

text \<open>What the last part of the handler leaves, by the result of the conversion.\<close>

lemma record_and_stream_result:
  "fst (record_and_stream conv dbUser messages w) = after_gate conv (array_items messages)"
  "requestLogs (snd (record_and_stream conv dbUser messages w)) =
     requestLogs w @ [\<lparr>l_userId = u_id dbUser, l_createdAt = now w\<rparr>]"
  "trace (snd (record_and_stream conv dbUser messages w)) =
     trace w @ EInsertLog (u_id dbUser) #
       (case conv (array_items messages) of Inl e \<Rightarrow> [] | Inr mm \<Rightarrow> [EStreamText mm])"
  by (simp_all add: record_and_stream_def after_gate_def Let_def split: sum.splits)

text \<open>A request that reaches the gate is decided by the gate and the conversion alone.\<close>

lemma POST_at_gate:
  assumes "reaches_gate sess body w dbUser"
  shows "\<exists>messages. \<not> no_messages messages \<and> session_user_id sess = Some (u_id dbUser) \<and>
     request_messages body = array_items messages \<and>
     POST conv ev sess body w =
       (case rate_limit ev dbUser (emit (ESelectUser (u_id dbUser)) (emit EAuth w)) of
          (Some denied, w3) \<Rightarrow> (Returned denied, w3)
        | (None, w3) \<Rightarrow> record_and_stream conv dbUser messages w3)"
proof -
  from assms obtain sid where sid: "session_user_id sess = Some sid"
    by (auto simp: reaches_gate_def split: option.splits)
  from assms sid obtain rest where sel: "select_user (users w) sid = dbUser # rest"
    by (auto simp: reaches_gate_def split: list.splits)
  from assms sid sel obtain parsed where body: "body = Inr parsed"
    by (auto simp: reaches_gate_def split: sum.splits)
  from assms sid sel body obtain messages
    where msgs: "get_messages parsed = Inr messages" "\<not> no_messages messages"
    by (auto simp: reaches_gate_def split: sum.splits)
  from sel have id: "u_id dbUser = sid" by (rule select_user_id)
  have "POST conv ev sess body w =
       (case rate_limit ev dbUser (emit (ESelectUser (u_id dbUser)) (emit EAuth w)) of
          (Some denied, w3) \<Rightarrow> (Returned denied, w3)
        | (None, w3) \<Rightarrow> record_and_stream conv dbUser messages w3)"
    by (simp add: POST_def Let_def sid sel body msgs id)
  moreover have "request_messages body = array_items messages"
    by (simp add: request_messages_def body msgs)
  ultimately show ?thesis using msgs sid id by blast
qed

text \<open>
  At the gate there are three ways on: refused, or allowed without or with the count
  having been queried.
\<close>

lemma POST_gate_cases:
  assumes "reaches_gate sess body w dbUser"
  obtains
    (limited) "\<not> u_isAdmin dbUser"
      "DAILY_REQUEST_LIMIT ev \<le> int (events_today w (u_id dbUser))"
      "POST conv ev sess body w =
         (Returned (JsonError 429 ''Daily request limit reached''),
          emit (ECountLogs (u_id dbUser)) (emit (ESelectUser (u_id dbUser)) (emit EAuth w)))"
  | (passed) pre where
      "u_isAdmin dbUser \<or> int (events_today w (u_id dbUser)) < DAILY_REQUEST_LIMIT ev"
      "fst (POST conv ev sess body w) = after_gate conv (request_messages body)"
      "requestLogs (snd (POST conv ev sess body w)) =
         requestLogs w @ [\<lparr>l_userId = u_id dbUser, l_createdAt = now w\<rparr>]"
      "trace (snd (POST conv ev sess body w)) =
         trace w @ [EAuth, ESelectUser (u_id dbUser)] @ pre @ EInsertLog (u_id dbUser) #
           (case conv (request_messages body) of Inl e \<Rightarrow> [] | Inr mm \<Rightarrow> [EStreamText mm])"
      "list_all (\<lambda>e. \<not> records_or_generates e) pre"
proof -
  let ?w2 = "emit (ESelectUser (u_id dbUser)) (emit EAuth w)"
  from POST_at_gate [OF assms, of conv ev] obtain messages where
    rm: "request_messages body = array_items messages" and
    P: "POST conv ev sess body w =
       (case rate_limit ev dbUser ?w2 of
          (Some denied, w3) \<Rightarrow> (Returned denied, w3)
        | (None, w3) \<Rightarrow> record_and_stream conv dbUser messages w3)"
    by blast
  show ?thesis
  proof (cases "u_isAdmin dbUser")
    case True
    then have "rate_limit ev dbUser ?w2 = (None, ?w2)"
      by (simp add: rate_limit_def)
    with P have "POST conv ev sess body w = record_and_stream conv dbUser messages ?w2"
      by simp
    then show ?thesis
      using passed [of "[]"] True rm by (simp add: record_and_stream_result)
  next
    case False
    show ?thesis
    proof (cases "DAILY_REQUEST_LIMIT ev \<le> int (events_today w (u_id dbUser))")
      case True
      then have "rate_limit ev dbUser ?w2 =
          (Some (JsonError 429 ''Daily request limit reached''),
           emit (ECountLogs (u_id dbUser)) ?w2)"
        using False by (simp add: rate_limit_def Let_def count_logs_today_eq)
      with P show ?thesis using limited False True by simp
    next
      case below: False
      then have "rate_limit ev dbUser ?w2 = (None, emit (ECountLogs (u_id dbUser)) ?w2)"
        using False by (simp add: rate_limit_def Let_def count_logs_today_eq)
      with P have "POST conv ev sess body w =
          record_and_stream conv dbUser messages (emit (ECountLogs (u_id dbUser)) ?w2)"
        by simp
      then show ?thesis
        using passed [of "[ECountLogs (u_id dbUser)]"] below rm
        by (simp add: record_and_stream_result)
    qed
  qed
qed

text \<open>Before the gate there are three ways out, none of which writes or generates.\<close>

lemma POST_before_gate:
  assumes "\<forall>dbUser. \<not> reaches_gate sess body w dbUser"
  shows "\<not> refused (fst (POST conv ev sess body w)) \<and>
         fst (POST conv ev sess body w) \<noteq> Returned UIMessageStream \<and>
         requestLogs (snd (POST conv ev sess body w)) = requestLogs w \<and>
         filter records_or_generates (effects_of w (snd (POST conv ev sess body w))) = []"
proof (cases "session_user_id sess")
  case None
  then show ?thesis by (simp add: POST_def refused_def)
next
  case (Some sid)
  show ?thesis
  proof (cases "select_user (users w) sid")
    case Nil
    then show ?thesis using Some by (simp add: POST_def refused_def)
  next
    case (Cons dbUser rest)
    show ?thesis
    proof (cases body)
      case (Inl e)
      then show ?thesis using Some Cons by (simp add: POST_def refused_def)
    next
      case (Inr parsed)
      show ?thesis
      proof (cases "get_messages parsed")
        case (Inl e)
        then show ?thesis using Some Cons Inr by (simp add: POST_def refused_def)
      next
        case msgs: (Inr messages)
        from assms have "\<not> reaches_gate sess body w dbUser" by blast
        then have "no_messages messages"
          using Some Cons Inr msgs by (simp add: reaches_gate_def)
        then show ?thesis using Some Cons Inr msgs by (simp add: POST_def refused_def)
      qed
    qed
  qed
qed

text \<open>The handler on the small store.\<close>

lemma demo_select:
  "select_user (users demo_world) ''alice'' = [alice]"
  "select_user (users demo_world) ''root'' = [root_user]"
  "select_user (users demo_world) ''mallory'' = []"
  by (simp_all add: select_user_def demo_world_def alice_def root_user_def)

lemma demo_session [simp]: "uid \<noteq> [] \<Longrightarrow> session_user_id (session_of uid) = Some uid"
  by (simp add: session_user_id_def session_of_def)

lemma demo_events_today: "events_today demo_world ''alice'' = 2"
  by (simp add: events_today_def demo_world_def utc_midnight_def micros_per_day_def)

lemma demo_reaches_gate:
  "reaches_gate (session_of ''alice'') hello_body demo_world alice"
  "reaches_gate (session_of ''alice'') bare_body demo_world alice"
  "reaches_gate (session_of ''root'') hello_body demo_world root_user"
  by (simp_all add: reaches_gate_def demo_select hello_body_def bare_body_def no_messages_def)


lemma demo_POST:
  "fst (POST strict_converter (limit_of 2) (session_of ''alice'') hello_body demo_world) =
     Returned (JsonError 429 ''Daily request limit reached'')"
  "fst (POST strict_converter (limit_of 3) (session_of ''alice'') hello_body demo_world) =
     Returned UIMessageStream"
  "fst (POST strict_converter (limit_of 3) (session_of ''alice'') bare_body demo_world) =
     Threw (ErrorObj ''MessageConversionError'' ''Unsupported role'')"
  "fst (POST strict_converter (limit_of 0) (session_of ''root'') hello_body demo_world) =
     Returned UIMessageStream"
  "fst (POST strict_converter (limit_of 3) (session_of ''mallory'') hello_body demo_world) =
     Returned (JsonError 401 ''User not found'')"
  by (simp_all add: POST_def demo_select hello_body_def bare_body_def hello_message_def
        no_messages_def rate_limit_def count_logs_today_eq demo_events_today
        record_and_stream_def strict_converter_def alice_def root_user_def limit_of_def Let_def)



text \<open>
  C3. A request answered with 401 (no session, or no user row for the session's id) or with
  429 leaves the request log as it was and neither writes a log row nor starts the
  generation. A request that is allowed to proceed, that is, one that reaches the gate and
  is not refused, adds exactly one log row, for its identity; among its effects the one
  insert comes first, and the start of the generation, which takes place when the
  conversion of the messages does not throw, comes after it. In particular a request
  answered with the stream has made exactly one insert and then one start of the
  generation.
\<close>

theorem rejected_or_recorded_once:
  "((\<exists>msg. fst (POST conv ev sess body w) = Returned (JsonError 401 msg)) \<or>
    (\<exists>msg. fst (POST conv ev sess body w) = Returned (JsonError 429 msg)) \<longrightarrow>
      requestLogs (snd (POST conv ev sess body w)) = requestLogs w \<and>
      filter records_or_generates (effects_of w (snd (POST conv ev sess body w))) = []) \<and>
   (reaches_gate sess body w dbUser \<and> \<not> refused (fst (POST conv ev sess body w)) \<longrightarrow>
      requestLogs (snd (POST conv ev sess body w)) =
        requestLogs w @ [\<lparr>l_userId = u_id dbUser, l_createdAt = now w\<rparr>] \<and>
      filter records_or_generates (effects_of w (snd (POST conv ev sess body w))) =
        EInsertLog (u_id dbUser) #
          (case conv (request_messages body) of Inl e \<Rightarrow> [] | Inr mm \<Rightarrow> [EStreamText mm])) \<and>
   (fst (POST conv ev sess body w) = Returned UIMessageStream \<longrightarrow>
      (\<exists>uid mm.
         session_user_id sess = Some uid \<and>
         requestLogs (snd (POST conv ev sess body w)) =
           requestLogs w @ [\<lparr>l_userId = uid, l_createdAt = now w\<rparr>] \<and>
         filter records_or_generates (effects_of w (snd (POST conv ev sess body w))) =
           [EInsertLog uid, EStreamText mm]))"
proof (cases "\<exists>u. reaches_gate sess body w u")
  case False
  then have "\<forall>u. \<not> reaches_gate sess body w u" by blast
  from POST_before_gate [OF this, of conv ev] False show ?thesis by auto
next
  case True
  then obtain u where g: "reaches_gate sess body w u" by blast
  have same: "dbUser = u" if "reaches_gate sess body w dbUser"
    using that g by (auto simp: reaches_gate_def split: option.splits list.splits)
  from POST_at_gate [OF g, of conv ev] have sid: "session_user_id sess = Some (u_id u)"
    by blast
  from g show ?thesis
  proof (cases rule: POST_gate_cases [where conv = conv and ev = ev])
    case limited
    then show ?thesis by (simp add: refused_def)
  next
    case (passed pre)
    have filt: "filter records_or_generates
        ([EAuth, ESelectUser (u_id u)] @ pre @ EInsertLog (u_id u) #
           (case conv (request_messages body) of Inl e \<Rightarrow> [] | Inr mm \<Rightarrow> [EStreamText mm])) =
        EInsertLog (u_id u) #
           (case conv (request_messages body) of Inl e \<Rightarrow> [] | Inr mm \<Rightarrow> [EStreamText mm])"
      using passed(5)
      by (simp add: filter_empty_conv list_all_iff split: sum.splits)
    have eff: "filter records_or_generates (effects_of w (snd (POST conv ev sess body w))) =
        EInsertLog (u_id u) #
           (case conv (request_messages body) of Inl e \<Rightarrow> [] | Inr mm \<Rightarrow> [EStreamText mm])"
      using passed(4) filt by simp
    have out: "fst (POST conv ev sess body w) \<noteq> Returned (JsonError code msg)" for code msg
      using passed(2) by (simp add: after_gate_def split: sum.splits)
    have str: "\<exists>mm. conv (request_messages body) = Inr mm"
      if "fst (POST conv ev sess body w) = Returned UIMessageStream"
      using that passed(2) by (simp add: after_gate_def split: sum.splits)
    show ?thesis
    proof (intro conjI impI)
      assume "(\<exists>msg. fst (POST conv ev sess body w) = Returned (JsonError 401 msg)) \<or>
              (\<exists>msg. fst (POST conv ev sess body w) = Returned (JsonError 429 msg))"
      with out show "requestLogs (snd (POST conv ev sess body w)) = requestLogs w"
        and "filter records_or_generates (effects_of w (snd (POST conv ev sess body w))) = []"
        by blast+
    next
      assume a: "reaches_gate sess body w dbUser \<and> \<not> refused (fst (POST conv ev sess body w))"
      then have "dbUser = u" using same by blast
      with passed(3) eff
      show "requestLogs (snd (POST conv ev sess body w)) =
              requestLogs w @ [\<lparr>l_userId = u_id dbUser, l_createdAt = now w\<rparr>]"
        and "filter records_or_generates (effects_of w (snd (POST conv ev sess body w))) =
              EInsertLog (u_id dbUser) #
                (case conv (request_messages body) of Inl e \<Rightarrow> [] | Inr mm \<Rightarrow> [EStreamText mm])"
        by simp_all
    next
      assume "fst (POST conv ev sess body w) = Returned UIMessageStream"
      from str [OF this] obtain mm where "conv (request_messages body) = Inr mm" by blast
      with eff passed(3) sid
      show "\<exists>uid mm.
         session_user_id sess = Some uid \<and>
         requestLogs (snd (POST conv ev sess body w)) =
           requestLogs w @ [\<lparr>l_userId = uid, l_createdAt = now w\<rparr>] \<and>
         filter records_or_generates (effects_of w (snd (POST conv ev sess body w))) =
           [EInsertLog uid, EStreamText mm]"
        by simp
    qed
  qed
qed

text \<open>
  On the small store: the refused third request of the ordinary user, the request of an
  unknown user, an allowed request that is streamed, and an allowed request whose
  conversion throws after its row was written.
\<close>

theorem rejected_or_recorded_once_witness:
  "fst (POST strict_converter (limit_of 2) (session_of ''alice'') hello_body demo_world) =
     Returned (JsonError 429 ''Daily request limit reached'') \<and>
   requestLogs (snd (POST strict_converter (limit_of 2) (session_of ''alice'') hello_body
                      demo_world)) = requestLogs demo_world \<and>
   fst (POST strict_converter (limit_of 3) (session_of ''mallory'') hello_body demo_world) =
     Returned (JsonError 401 ''User not found'') \<and>
   requestLogs (snd (POST strict_converter (limit_of 3) (session_of ''mallory'') hello_body
                      demo_world)) = requestLogs demo_world \<and>
   fst (POST strict_converter (limit_of 3) (session_of ''alice'') hello_body demo_world) =
     Returned UIMessageStream \<and>
   requestLogs (snd (POST strict_converter (limit_of 3) (session_of ''alice'') hello_body
                      demo_world)) =
     requestLogs demo_world @ [\<lparr>l_userId = ''alice'', l_createdAt = now demo_world\<rparr>] \<and>
   reaches_gate (session_of ''alice'') bare_body demo_world alice \<and>
   fst (POST strict_converter (limit_of 3) (session_of ''alice'') bare_body demo_world) =
     Threw (ErrorObj ''MessageConversionError'' ''Unsupported role'') \<and>
   filter records_or_generates
     (effects_of demo_world
        (snd (POST strict_converter (limit_of 3) (session_of ''alice'') bare_body demo_world))) =
     [EInsertLog ''alice'']"
proof -
  note a = rejected_or_recorded_once
    [of strict_converter "limit_of 2" "session_of ''alice''" hello_body demo_world alice]
  note b = rejected_or_recorded_once
    [of strict_converter "limit_of 3" "session_of ''mallory''" hello_body demo_world alice]
  note c = rejected_or_recorded_once
    [of strict_converter "limit_of 3" "session_of ''alice''" hello_body demo_world alice]
  note d = rejected_or_recorded_once
    [of strict_converter "limit_of 3" "session_of ''alice''" bare_body demo_world alice]
  have g: "reaches_gate (session_of ''alice'') bare_body demo_world alice"
    by (rule demo_reaches_gate)
  have conv: "strict_converter (request_messages bare_body) =
      Inl (ErrorObj ''MessageConversionError'' ''Unsupported role'')"
    by (simp add: strict_converter_def request_messages_def bare_body_def)
  from a have 1: "requestLogs (snd (POST strict_converter (limit_of 2) (session_of ''alice'')
      hello_body demo_world)) = requestLogs demo_world"
    by (simp add: demo_POST)
  from b have 2: "requestLogs (snd (POST strict_converter (limit_of 3) (session_of ''mallory'')
      hello_body demo_world)) = requestLogs demo_world"
    by (simp add: demo_POST)
  from c have 3: "requestLogs (snd (POST strict_converter (limit_of 3) (session_of ''alice'')
      hello_body demo_world)) =
     requestLogs demo_world @ [\<lparr>l_userId = ''alice'', l_createdAt = now demo_world\<rparr>]"
    by (simp add: demo_POST)
  from d g have 4: "filter records_or_generates
     (effects_of demo_world
        (snd (POST strict_converter (limit_of 3) (session_of ''alice'') bare_body demo_world))) =
     [EInsertLog ''alice'']"
    by (simp add: demo_POST refused_def conv alice_def)
  from 1 2 3 4 g show ?thesis by (simp add: demo_POST)
qed

text \<open>
  C9, as stated, has the handler throw "No messages provided" for every body with a
  missing \<^verbatim>\<open>messages\<close> field. The body \<^verbatim>\<open>null\<close> has no such field, and there the
  destructuring of line 40 throws its TypeError before the check of line 42 is reached.
\<close>

theorem null_body_throws_type_error_counterexample:
  "session_user_id (session_of ''alice'') = Some ''alice'' \<and>
   select_user (users demo_world) ''alice'' = [alice] \<and>
   fst (POST strict_converter (limit_of 3) (session_of ''alice'') (Inr JNull) demo_world) =
     Threw (ErrorObj ''TypeError'' destructure_null_message) \<and>
   fst (POST strict_converter (limit_of 3) (session_of ''alice'') (Inr JNull) demo_world) \<noteq>
     Threw (ErrorObj ''Error'' ''No messages provided'')"
  by (simp add: POST_def demo_select)

text \<open>
  C9, amended. When the session resolves to a user row and the parsed body is not \<^verbatim>\<open>null\<close>
  and has no \<^verbatim>\<open>messages\<close> field, one that is not an array, or an empty array, the handler
  throws the error "No messages provided"; when the parsed body is \<^verbatim>\<open>null\<close> it throws the
  TypeError of the destructuring. In both cases its only effects up to then are the session
  lookup and the user lookup: the count of the quota is not queried, no log row is written
  and the generation is not started.
\<close>

theorem no_messages_throws_before_quota:
  assumes "session_user_id sess = Some sid"
    and "select_user (users w) sid \<noteq> []"
    and "body = Inr parsed"
  shows "(parsed \<noteq> JNull \<and> get_messages parsed = Inr field \<and>
            (field = None \<or> \<not> isArray field \<or> field = Some (JArr [])) \<longrightarrow>
            fst (POST conv ev sess body w) = Threw (ErrorObj ''Error'' ''No messages provided'') \<and>
            requestLogs (snd (POST conv ev sess body w)) = requestLogs w \<and>
            trace (snd (POST conv ev sess body w)) = trace w @ [EAuth, ESelectUser sid]) \<and>
         (parsed = JNull \<longrightarrow>
            fst (POST conv ev sess body w) = Threw (ErrorObj ''TypeError'' destructure_null_message) \<and>
            requestLogs (snd (POST conv ev sess body w)) = requestLogs w \<and>
            trace (snd (POST conv ev sess body w)) = trace w @ [EAuth, ESelectUser sid])"
proof (intro conjI impI)
  assume a: "parsed \<noteq> JNull \<and> get_messages parsed = Inr field \<and>
            (field = None \<or> \<not> isArray field \<or> field = Some (JArr []))"
  then have "no_messages field"
    by (auto simp: no_messages_def)
  with assms a
  show "fst (POST conv ev sess body w) = Threw (ErrorObj ''Error'' ''No messages provided'')"
    and "requestLogs (snd (POST conv ev sess body w)) = requestLogs w"
    and "trace (snd (POST conv ev sess body w)) = trace w @ [EAuth, ESelectUser sid]"
    by (cases "select_user (users w) sid"; simp add: POST_def)+
next
  assume "parsed = JNull"
  with assms
  show "fst (POST conv ev sess body w) = Threw (ErrorObj ''TypeError'' destructure_null_message)"
    and "requestLogs (snd (POST conv ev sess body w)) = requestLogs w"
    and "trace (snd (POST conv ev sess body w)) = trace w @ [EAuth, ESelectUser sid]"
    by (cases "select_user (users w) sid"; simp add: POST_def)+
qed

text \<open>On the small store, with the bodies \<^verbatim>\<open>{"messages": []}\<close> and \<^verbatim>\<open>{"messages": "hi"}\<close>.\<close>

theorem no_messages_throws_before_quota_witness:
  "session_user_id (session_of ''alice'') = Some ''alice'' \<and>
   select_user (users demo_world) ''alice'' \<noteq> [] \<and>
   JObj [(''messages'', JArr [])] \<noteq> JNull \<and>
   get_messages (JObj [(''messages'', JArr [])]) = Inr (Some (JArr [])) \<and>
   fst (POST strict_converter (limit_of 3) (session_of ''alice'')
          (Inr (JObj [(''messages'', JArr [])])) demo_world) =
     Threw (ErrorObj ''Error'' ''No messages provided'') \<and>
   trace (snd (POST strict_converter (limit_of 3) (session_of ''alice'')
                 (Inr (JObj [(''messages'', JArr [])])) demo_world)) =
     [EAuth, ESelectUser ''alice''] \<and>
   get_messages (JObj [(''messages'', JStr ''hi'')]) = Inr (Some (JStr ''hi'')) \<and>
   \<not> isArray (Some (JStr ''hi'')) \<and>
   fst (POST strict_converter (limit_of 3) (session_of ''alice'')
          (Inr (JObj [(''messages'', JStr ''hi'')])) demo_world) =
     Threw (ErrorObj ''Error'' ''No messages provided'') \<and>
   trace (snd (POST strict_converter (limit_of 3) (session_of ''alice'') (Inr JNull) demo_world)) =
     [EAuth, ESelectUser ''alice'']"
proof -
  have s: "session_user_id (session_of ''alice'') = Some ''alice''" by simp
  have u: "select_user (users demo_world) ''alice'' \<noteq> []" by (simp add: demo_select)
  have e: "get_messages (JObj [(''messages'', JArr [])]) = Inr (Some (JArr []))" by simp
  have h: "get_messages (JObj [(''messages'', JStr ''hi'')]) = Inr (Some (JStr ''hi''))" by simp
  have t: "trace demo_world = []" by (simp add: demo_world_def)
  from no_messages_throws_before_quota
         [OF s u refl, of "JObj [(''messages'', JArr [])]" "Some (JArr [])" strict_converter
            "limit_of 3"]
       no_messages_throws_before_quota
         [OF s u refl, of "JObj [(''messages'', JStr ''hi'')]" "Some (JStr ''hi'')"
            strict_converter "limit_of 3"]
       no_messages_throws_before_quota
         [OF s u refl, of JNull None strict_converter "limit_of 3"]
  show ?thesis using s u e h by (simp add: t)
qed

section \<open>Facts about the events of a step\<close>

text \<open>A step closes with one step boundary and holds neither the end nor an error.\<close>

lemma tool_events_plain:
  "count_list (tool_events c out) StepBoundary = 0"
  "Done \<notin> set (tool_events c out)"
  "ErrorEvent e \<notin> set (tool_events c out)"
  by (simp_all add: tool_events_def split: sum.splits)

lemma concat_tool_events_plain:
  "count_list (concat (map (\<lambda>(c, out). tool_events c out) ps)) StepBoundary = 0"
  "Done \<notin> set (concat (map (\<lambda>(c, out). tool_events c out) ps))"
  "ErrorEvent e \<notin> set (concat (map (\<lambda>(c, out). tool_events c out) ps))"
  by (induction ps) (auto simp: tool_events_plain)

lemma count_list_TextDelta [simp]: "count_list (map TextDelta ds) StepBoundary = 0"
  by (induction ds) simp_all

lemma step_events_plain:
  "count_list (step_events st) StepBoundary = 1"
  "Done \<notin> set (step_events st)"
  "ErrorEvent e \<notin> set (step_events st)"
  by (auto simp add: step_events_def concat_tool_events_plain simp del: set_concat)

lemma call_model_generated:
  assumes "m ctx attempt = Generated deltas calls"
  shows "call_model m ctx attempt r = Inr (deltas, calls)"
  using assms by (cases r) simp_all

section \<open>Properties of the searchWeb tool\<close>

text \<open>The tool always hands a list back, so a step with tool calls holds no tool error.\<close>

lemma searchWeb_returns: "\<exists>items. searchWeb searchSerper abortSignal query = Inr items"
  by (simp add: searchWeb_def execute_def Let_def split: sum.splits)

lemma concat_tool_events_no_tool_error:
  assumes "\<forall>q. \<exists>items. invoke q = Inr items"
  shows "ToolCallError i e \<notin>
           set (concat (map (\<lambda>(c, out). tool_events c out)
                  (zip calls (map (\<lambda>c. invoke (call_query c)) calls))))"
proof (induction calls)
  case Nil
  then show ?case by simp
next
  case (Cons c calls)
  from assms obtain items where "invoke (call_query c) = Inr items" by blast
  with Cons show ?case by (simp add: tool_events_def)
qed

lemma step_events_no_tool_error:
  assumes "\<forall>q. \<exists>items. invoke q = Inr items"
  shows "ToolCallError i e \<notin>
           set (step_events \<lparr>step_text = deltas, step_calls = calls,
                  step_outputs = map (\<lambda>c. invoke (call_query c)) calls\<rparr>)"
  using concat_tool_events_no_tool_error [OF assms, of i e calls]
  by (auto simp add: step_events_def simp del: set_concat)

lemma run_steps_completes:
  assumes never_fails: "\<forall>ctx attempt. \<exists>deltas calls. m ctx attempt = Generated deltas calls"
    and stop: "opt_stopWhen opts = stepCountIs 10"
    and total: "\<forall>q. \<exists>items. invoke q = Inr items"
  shows "length steps + Suc k = 10 \<Longrightarrow>
     \<exists>new added. run_steps opts m invoke steps evs = Some (evs @ new @ [Done], steps @ added) \<and>
        length (steps @ added) \<le> 10 \<and>
        (\<forall>e. ErrorEvent e \<notin> set new) \<and> (\<forall>i e. ToolCallError i e \<notin> set new) \<and>
        (\<forall>st \<in> set added. step_outputs st = map (\<lambda>c. invoke (call_query c)) (step_calls st))"
proof (induction k arbitrary: steps evs)
  case 0
  from never_fails obtain deltas calls
    where g: "m steps 0 = Generated deltas calls" by blast
  have cm: "call_model m steps 0 (opt_maxRetries opts) = Inr (deltas, calls)"
    using g by (rule call_model_generated)
  define st where "st = \<lparr>step_text = deltas, step_calls = calls,
                     step_outputs = map (\<lambda>c. invoke (call_query c)) calls\<rparr>"
  have "run_steps opts m invoke steps evs = Some (evs @ step_events st @ [Done], steps @ [st])"
    using 0
    by (subst run_steps.simps) (simp add: cm stop stepCountIs_def st_def Let_def)
  moreover have "\<forall>i e. ToolCallError i e \<notin> set (step_events st)"
    unfolding st_def using step_events_no_tool_error [OF total] by blast
  moreover have "step_outputs st = map (\<lambda>c. invoke (call_query c)) (step_calls st)"
    by (simp add: st_def)
  ultimately show ?case using 0
    by (intro exI [of _ "step_events st"] exI [of _ "[st]"]) (simp add: step_events_plain)
next
  case (Suc k)
  from never_fails obtain deltas calls
    where g: "m steps 0 = Generated deltas calls" by blast
  have cm: "call_model m steps 0 (opt_maxRetries opts) = Inr (deltas, calls)"
    using g by (rule call_model_generated)
  define st where "st = \<lparr>step_text = deltas, step_calls = calls,
                     step_outputs = map (\<lambda>c. invoke (call_query c)) calls\<rparr>"
  have te: "\<forall>i e. ToolCallError i e \<notin> set (step_events st)"
    unfolding st_def using step_events_no_tool_error [OF total] by blast
  have so: "step_outputs st = map (\<lambda>c. invoke (call_query c)) (step_calls st)"
    by (simp add: st_def)
  show ?case
  proof (cases "calls = []")
    case True
    have "run_steps opts m invoke steps evs = Some (evs @ step_events st @ [Done], steps @ [st])"
      using True
      by (subst run_steps.simps) (simp add: cm st_def Let_def)
    then show ?thesis using Suc.prems te so
      by (intro exI [of _ "step_events st"] exI [of _ "[st]"]) (simp add: step_events_plain)
  next
    case False
    have unfold: "run_steps opts m invoke steps evs =
          run_steps opts m invoke (steps @ [st]) (evs @ step_events st)"
      using Suc.prems False
      by (subst run_steps.simps) (simp add: cm stop stepCountIs_def st_def Let_def)
    from Suc.prems have "length (steps @ [st]) + Suc k = 10" by simp
    from Suc.IH [OF this, of "evs @ step_events st"] obtain new added where
      r: "run_steps opts m invoke (steps @ [st]) (evs @ step_events st) =
            Some ((evs @ step_events st) @ new @ [Done], (steps @ [st]) @ added)"
      and p: "length ((steps @ [st]) @ added) \<le> 10"
        "\<forall>e. ErrorEvent e \<notin> set new" "\<forall>i e. ToolCallError i e \<notin> set new"
        "\<forall>st \<in> set added. step_outputs st = map (\<lambda>c. invoke (call_query c)) (step_calls st)"
      by blast
    have "run_steps opts m invoke steps evs =
            Some (evs @ (step_events st @ new) @ [Done], steps @ (st # added))"
      using unfold r by simp
    then show ?thesis using p te so
      by (intro exI [of _ "step_events st @ new"] exI [of _ "st # added"])
         (simp add: step_events_plain)
  qed
qed

text \<open>
  C2. When the search call of an invocation of the tool fails, that is, \<^verbatim>\<open>searchSerper\<close>
  throws for the arguments the tool passes, \<^verbatim>\<open>execute\<close> does not let the exception out: it
  returns the list of exactly one item with title "Search error", an empty link, and as
  snippet the error's message (for a thrown value that is not an \<^verbatim>\<open>Error\<close>, its string).
  The loop takes it as the result of the call, and the generation goes on: with this tool
  and any model whose calls do not fail, the generation ends with \<open>Done\<close>, without an error
  event and without a tool error, and every call with that query has the one item as its
  output.
\<close>

theorem search_failure_item:
  assumes "searchSerper \<lparr>arg_q = query, arg_num = 10\<rparr> abortSignal = Inl err"
  shows "returned (execute searchSerper query abortSignal) =
           Inr [\<lparr>title = ''Search error'', link = [], snippet = error_message err\<rparr>] \<and>
         tool_events c (searchWeb searchSerper abortSignal query) =
           [ToolCallStart (call_id c),
            ToolCallResult (call_id c)
              [\<lparr>title = ''Search error'', link = [], snippet = error_message err\<rparr>]] \<and>
         ((\<forall>ctx attempt. \<exists>deltas calls. m ctx attempt = Generated deltas calls) \<longrightarrow>
          (\<exists>evs steps.
             streamText (streamText_options msgs) m (searchWeb searchSerper abortSignal) =
               Some (evs, steps) \<and>
             last evs = Done \<and>
             (\<forall>e. ErrorEvent e \<notin> set evs) \<and>
             (\<forall>i e. ToolCallError i e \<notin> set evs) \<and>
             (\<forall>st \<in> set steps. \<forall>i < length (step_calls st).
                call_query (step_calls st ! i) = query \<longrightarrow>
                i < length (step_outputs st) \<and>
                step_outputs st ! i =
                  Inr [\<lparr>title = ''Search error'', link = [], snippet = error_message err\<rparr>])))"
proof (intro conjI impI)
  let ?item = "\<lparr>title = ''Search error'', link = [], snippet = error_message err\<rparr>"
  let ?invoke = "searchWeb searchSerper abortSignal"
  show r: "returned (execute searchSerper query abortSignal) = Inr [?item]"
    using assms by (simp add: execute_def Let_def)
  then have sw: "?invoke query = Inr [?item]"
    by (simp add: searchWeb_def)
  then show "tool_events c (?invoke query) =
      [ToolCallStart (call_id c), ToolCallResult (call_id c) [?item]]"
    by (simp add: tool_events_def)
  assume nf: "\<forall>ctx attempt. \<exists>deltas calls. m ctx attempt = Generated deltas calls"
  have stop: "opt_stopWhen (streamText_options msgs) = stepCountIs 10"
    by (simp add: streamText_options_def)
  have total: "\<forall>q. \<exists>items. ?invoke q = Inr items"
    by (rule allI) (rule searchWeb_returns)
  have "length ([] :: step list) + Suc 9 = 10" by simp
  from run_steps_completes [OF nf stop total this, of "[]"] obtain new added where
    run: "run_steps (streamText_options msgs) m ?invoke [] [] = Some (new @ [Done], added)"
    and p: "\<forall>e. ErrorEvent e \<notin> set new" "\<forall>i e. ToolCallError i e \<notin> set new"
      "\<forall>st \<in> set added. step_outputs st = map (\<lambda>c. ?invoke (call_query c)) (step_calls st)"
    by auto
  have outs: "\<forall>st \<in> set added. \<forall>i < length (step_calls st).
                call_query (step_calls st ! i) = query \<longrightarrow>
                i < length (step_outputs st) \<and> step_outputs st ! i = Inr [?item]"
    using p(3) sw by auto
  have "streamText (streamText_options msgs) m ?invoke = Some (new @ [Done], added)"
    using run by (simp add: streamText_def)
  moreover have "last (new @ [Done]) = Done" by simp
  moreover have "\<forall>e. ErrorEvent e \<notin> set (new @ [Done])" using p(1) by simp
  moreover have "\<forall>i e. ToolCallError i e \<notin> set (new @ [Done])" using p(2) by simp
  ultimately show "\<exists>evs steps.
             streamText (streamText_options msgs) m ?invoke = Some (evs, steps) \<and>
             last evs = Done \<and>
             (\<forall>e. ErrorEvent e \<notin> set evs) \<and>
             (\<forall>i e. ToolCallError i e \<notin> set evs) \<and>
             (\<forall>st \<in> set steps. \<forall>i < length (step_calls st).
                call_query (step_calls st ! i) = query \<longrightarrow>
                i < length (step_outputs st) \<and> step_outputs st ! i = Inr [?item])"
    using outs by blast
qed

text \<open>
  A model that searches once and then answers, with a search that fails: the failed search
  is a result in the stream, and the answer follows it.
\<close>

lemma demo_generation:
  "streamText (streamText_options []) search_then_answer (searchWeb failing_provider ()) =
     Some ([ToolCallStart 0,
            ToolCallResult 0 [\<lparr>title = ''Search error'', link = [], snippet = ''fetch failed''\<rparr>],
            StepBoundary, TextDelta ''I could not search.'', StepBoundary, Done],
           [\<lparr>step_text = [], step_calls = [\<lparr>call_id = 0, call_query = ''capital of France''\<rparr>],
             step_outputs =
               [Inr [\<lparr>title = ''Search error'', link = [], snippet = ''fetch failed''\<rparr>]]\<rparr>,
            \<lparr>step_text = [''I could not search.''], step_calls = [], step_outputs = []\<rparr>])"
  by code_simp

theorem search_failure_item_witness:
  "failing_provider \<lparr>arg_q = ''capital of France'', arg_num = 10\<rparr> () =
     Inl (ErrorObj ''TypeError'' ''fetch failed'') \<and>
   (\<forall>ctx attempt. \<exists>deltas calls. search_then_answer ctx attempt = Generated deltas calls) \<and>
   returned (execute failing_provider ''capital of France'' ()) =
     Inr [\<lparr>title = ''Search error'', link = [], snippet = ''fetch failed''\<rparr>] \<and>
   (\<exists>evs steps.
      streamText (streamText_options []) search_then_answer (searchWeb failing_provider ()) =
        Some (evs, steps) \<and>
      last evs = Done \<and>
      TextDelta ''I could not search.'' \<in> set evs \<and>
      (\<forall>e. ErrorEvent e \<notin> set evs) \<and> (\<forall>i e. ToolCallError i e \<notin> set evs))"
proof -
  have f: "failing_provider \<lparr>arg_q = ''capital of France'', arg_num = 10\<rparr> () =
     Inl (ErrorObj ''TypeError'' ''fetch failed'')"
    by (simp add: failing_provider_def)
  have nf: "\<forall>ctx attempt. \<exists>deltas calls. search_then_answer ctx attempt = Generated deltas calls"
    by (simp add: search_then_answer_def)
  note t = search_failure_item
    [of failing_provider "''capital of France''" "()" "ErrorObj ''TypeError'' ''fetch failed''"
        "\<lparr>call_id = 0, call_query = ''capital of France''\<rparr>" search_then_answer "[]"]
  from t f have r: "returned (execute failing_provider ''capital of France'' ()) =
     Inr [\<lparr>title = ''Search error'', link = [], snippet = ''fetch failed''\<rparr>]"
    by simp
  from t f nf obtain evs steps where
    run: "streamText (streamText_options []) search_then_answer (searchWeb failing_provider ()) =
        Some (evs, steps)"
    and p: "last evs = Done" "\<forall>e. ErrorEvent e \<notin> set evs" "\<forall>i e. ToolCallError i e \<notin> set evs"
    by blast
  from run have "TextDelta ''I could not search.'' \<in> set evs"
    by (auto simp: demo_generation)
  with f nf r run p show ?thesis by blast
qed

text \<open>
  C5, as stated, asks for at most ten items after every successful search. The tool hands
  on every organic row the provider returned: a provider that answers with eleven rows
  makes the tool return eleven items.
\<close>

theorem search_more_than_ten_counterexample:
  "generous_provider \<lparr>arg_q = ''news'', arg_num = 10\<rparr> () = Inr \<lparr>organic = eleven_rows\<rparr> \<and>
   length (returned_items (execute generous_provider ''news'' ())) = 11 \<and>
   \<not> length (returned_items (execute generous_provider ''news'' ())) \<le> 10"
  by (simp add: generous_provider_def execute_def returned_items_def eleven_rows_def)

text \<open>
  C5, amended. For every successful invocation the provider was called once, with the given
  query, a result count of ten and the abort signal of the invocation; the returned list
  has one item for each organic row of the provider's response, in order, made of that
  row's title, link and snippet; so it has at most ten items whenever the provider returned
  at most the ten rows it was asked for.
\<close>

theorem search_success_items:
  assumes "searchSerper \<lparr>arg_q = query, arg_num = 10\<rparr> abortSignal = Inr results"
  shows "returned (execute searchSerper query abortSignal) =
           Inr (map pick_fields (organic results)) \<and>
         provider_calls (execute searchSerper query abortSignal) =
           [(\<lparr>arg_q = query, arg_num = 10\<rparr>, abortSignal)] \<and>
         length (returned_items (execute searchSerper query abortSignal)) =
           length (organic results) \<and>
         (\<forall>i < length (organic results).
            title (returned_items (execute searchSerper query abortSignal) ! i) =
              r_title (organic results ! i) \<and>
            link (returned_items (execute searchSerper query abortSignal) ! i) =
              r_link (organic results ! i) \<and>
            snippet (returned_items (execute searchSerper query abortSignal) ! i) =
              r_snippet (organic results ! i)) \<and>
         (length (organic results) \<le> 10 \<longrightarrow>
            length (returned_items (execute searchSerper query abortSignal)) \<le> 10)"
  using assms by (simp add: execute_def Let_def returned_items_def pick_fields_def)

theorem search_success_items_witness:
  "two_rows_provider \<lparr>arg_q = ''a b'', arg_num = 10\<rparr> () = Inr two_rows \<and>
   length (organic two_rows) \<le> 10 \<and>
   provider_calls (execute two_rows_provider ''a b'' ()) =
     [(\<lparr>arg_q = ''a b'', arg_num = 10\<rparr>, ())] \<and>
   returned (execute two_rows_provider ''a b'' ()) =
     Inr [\<lparr>title = ''A'', link = ''https://a.example'', snippet = ''a''\<rparr>,
          \<lparr>title = ''B'', link = ''https://b.example'', snippet = ''b''\<rparr>] \<and>
   length (returned_items (execute two_rows_provider ''a b'' ())) \<le> 10"
proof -
  have p: "two_rows_provider \<lparr>arg_q = ''a b'', arg_num = 10\<rparr> () = Inr two_rows"
    by (simp add: two_rows_provider_def)
  have n: "length (organic two_rows) \<le> 10"
    by (simp add: two_rows_def)
  from p search_success_items [of two_rows_provider "''a b''" "()" two_rows]
  show ?thesis
    using n by (simp add: two_rows_def pick_fields_def)
qed

section \<open>Properties of the step loop\<close>

lemma run_steps_more:
  assumes always: "\<forall>ctx attempt. \<exists>deltas calls. m ctx attempt = Generated deltas calls \<and> calls \<noteq> []"
    and stop: "opt_stopWhen opts = stepCountIs 10"
  shows "length steps + Suc k = 10 \<Longrightarrow>
     \<exists>new steps'. run_steps opts m invoke steps evs = Some (evs @ new @ [Done], steps') \<and>
        length steps' = 10 \<and> count_list new StepBoundary = Suc k \<and>
        Done \<notin> set new \<and> (\<forall>e. ErrorEvent e \<notin> set new)"
proof (induction k arbitrary: steps evs)
  case 0
  from always obtain deltas calls
    where g: "m steps 0 = Generated deltas calls" and ne: "calls \<noteq> []" by blast
  have cm: "call_model m steps 0 (opt_maxRetries opts) = Inr (deltas, calls)"
    using g by (rule call_model_generated)
  define st where "st = \<lparr>step_text = deltas, step_calls = calls,
                     step_outputs = map (\<lambda>c. invoke (call_query c)) calls\<rparr>"
  have "run_steps opts m invoke steps evs = Some (evs @ step_events st @ [Done], steps @ [st])"
    using 0 ne
    by (subst run_steps.simps)
       (simp add: cm stop stepCountIs_def st_def Let_def)
  then show ?case using 0 by (auto simp: step_events_plain)
next
  case (Suc k)
  from always obtain deltas calls
    where g: "m steps 0 = Generated deltas calls" and ne: "calls \<noteq> []" by blast
  have cm: "call_model m steps 0 (opt_maxRetries opts) = Inr (deltas, calls)"
    using g by (rule call_model_generated)
  define st where "st = \<lparr>step_text = deltas, step_calls = calls,
                     step_outputs = map (\<lambda>c. invoke (call_query c)) calls\<rparr>"
  have unfold: "run_steps opts m invoke steps evs =
          run_steps opts m invoke (steps @ [st]) (evs @ step_events st)"
    using Suc.prems ne
    by (subst run_steps.simps)
       (simp add: cm stop stepCountIs_def st_def Let_def)
  from Suc.prems have "length (steps @ [st]) + Suc k = 10" by simp
  from Suc.IH [OF this, of "evs @ step_events st"] obtain new steps' where
    r: "run_steps opts m invoke (steps @ [st]) (evs @ step_events st) =
          Some ((evs @ step_events st) @ new @ [Done], steps')"
    and p: "length steps' = 10" "count_list new StepBoundary = Suc k"
       "Done \<notin> set new" "\<forall>e. ErrorEvent e \<notin> set new"
    by blast
  have "run_steps opts m invoke steps evs = Some (evs @ (step_events st @ new) @ [Done], steps')"
    using unfold r by simp
  moreover have "count_list (step_events st @ new) StepBoundary = Suc (Suc k)"
    using p by (simp add: step_events_plain)
  moreover have "Done \<notin> set (step_events st @ new)"
    using p by (simp add: step_events_plain)
  moreover have "\<forall>e. ErrorEvent e \<notin> set (step_events st @ new)"
    using p by (simp add: step_events_plain)
  ultimately show ?case using p(1) by blast
qed

text \<open>
  C4. The generation is started with a retry count of 3 and with the stop condition
  \<^verbatim>\<open>stepCountIs(10)\<close>. With these options, for every model that asks for a tool call on every
  step, the step loop returns: it has made at most 10 steps, its events hold at most 10 step
  boundaries, the last event is \<open>Done\<close>, and no error event occurs.
\<close>

theorem step_loop_bounded:
  assumes "\<forall>ctx attempt. \<exists>deltas calls. m ctx attempt = Generated deltas calls \<and> calls \<noteq> []"
  shows "opt_maxRetries (streamText_options msgs) = 3 \<and>
         opt_stopWhen (streamText_options msgs) = stepCountIs 10 \<and>
         (\<exists>evs steps.
            streamText (streamText_options msgs) m invoke = Some (evs, steps) \<and>
            length steps \<le> 10 \<and>
            count_list evs StepBoundary \<le> 10 \<and>
            last evs = Done \<and>
            (\<forall>e. ErrorEvent e \<notin> set evs))"
proof -
  have stop: "opt_stopWhen (streamText_options msgs) = stepCountIs 10"
    by (simp add: streamText_options_def)
  have "length ([] :: step list) + Suc 9 = 10" by simp
  from run_steps_more [OF assms stop this, of invoke "[]"] obtain new steps' where
    r: "run_steps (streamText_options msgs) m invoke [] [] = Some (new @ [Done], steps')"
    and p: "length steps' = 10" "count_list new StepBoundary = Suc 9"
       "Done \<notin> set new" "\<forall>e. ErrorEvent e \<notin> set new"
    by auto
  have "streamText (streamText_options msgs) m invoke = Some (new @ [Done], steps')"
    using r by (simp add: streamText_def)
  moreover have "count_list (new @ [Done]) StepBoundary \<le> 10" using p by simp
  moreover have "\<forall>e. ErrorEvent e \<notin> set (new @ [Done])" using p by simp
  ultimately show ?thesis
    using p(1) stop by (simp add: streamText_options_def)
qed

text \<open>The model that always searches, with a search that always fails.\<close>

theorem step_loop_bounded_witness:
  "(\<forall>ctx attempt. \<exists>deltas calls. always_searching ctx attempt = Generated deltas calls \<and> calls \<noteq> []) \<and>
   (\<exists>evs steps.
      streamText (streamText_options []) always_searching (searchWeb failing_provider ()) =
        Some (evs, steps) \<and>
      length steps \<le> 10 \<and> count_list evs StepBoundary \<le> 10 \<and> last evs = Done)"
proof -
  have a: "\<forall>ctx attempt. \<exists>deltas calls.
             always_searching ctx attempt = Generated deltas calls \<and> calls \<noteq> []"
    by (simp add: always_searching_def)
  from step_loop_bounded [OF a, of "[]" "searchWeb failing_provider ()"]
  show ?thesis using a by blast
qed

section \<open>Properties of the chat page\<close>

text \<open>
  C6, as stated, asks that no item with an empty link or with the title "Search error" is
  shown with a hyperlink. The page decides on the link alone: an item with that title and a
  link is an error item for the page and still gets its anchor.
\<close>

theorem error_titled_item_links_counterexample:
  "i_title linked_error_item = Some ''Search error'' \<and>
   isError 0 linked_error_item \<and>
   has_hyperlink (render_item 0 linked_error_item) \<and>
   iv_title (render_item 0 linked_error_item) =
     Anchor ''https://example.org/status'' ''Search error''"
  by (simp add: linked_error_item_def isError_def item_title_def item_link_def nullish_def
        render_item_def has_hyperlink_def Let_def)

text \<open>
  C6, amended. An item whose link is empty, which every item made by the failure path of
  the tool is, is an error item for the page and is shown without a hyperlink: the title is
  a red span, the link line is absent, and the snippet, when shown, has the error style. An
  item whose link is not empty is shown with a hyperlink, whatever its title.
\<close>

theorem empty_link_never_links:
  "(item_link item = [] \<longrightarrow>
      isError idx item \<and>
      \<not> has_hyperlink (render_item idx item) \<and>
      iv_title (render_item idx item) = RedSpan (item_title idx item) \<and>
      iv_link_text (render_item idx item) = None \<and>
      (\<forall>sn. iv_snippet (render_item idx item) = Some sn \<longrightarrow> fst sn)) \<and>
   (item_link item \<noteq> [] \<longrightarrow> has_hyperlink (render_item idx item)) \<and>
   item_link (received \<lparr>title = ''Search error'', link = [], snippet = msg\<rparr>) = []"
  by (auto simp: render_item_def has_hyperlink_def isError_def Let_def item_link_def
        received_def nullish_def)

theorem empty_link_never_links_witness:
  "item_link (received \<lparr>title = ''Search error'', link = [], snippet = ''fetch failed''\<rparr>) = [] \<and>
   \<not> has_hyperlink
       (render_item 0 (received \<lparr>title = ''Search error'', link = [], snippet = ''fetch failed''\<rparr>)) \<and>
   iv_title (render_item 0 (received \<lparr>title = ''Search error'', link = [], snippet = ''fetch failed''\<rparr>)) =
     RedSpan ''Search error'' \<and>
   iv_snippet (render_item 0 (received \<lparr>title = ''Search error'', link = [], snippet = ''fetch failed''\<rparr>)) =
     Some (True, ''fetch failed'')"
proof -
  let ?it = "received \<lparr>title = ''Search error'', link = [], snippet = ''fetch failed''\<rparr>"
  have l: "item_link ?it = []"
    by (simp add: item_link_def received_def nullish_def)
  have t: "item_title 0 ?it = ''Search error''"
    by (simp add: item_title_def received_def nullish_def)
  have s: "iv_snippet (render_item 0 ?it) = Some (isError 0 ?it, ''fetch failed'')"
    by (simp add: render_item_def item_snippet_def received_def nullish_def Let_def)
  from empty_link_never_links [of ?it 0 "''fetch failed''"] l
  have "isError 0 ?it" "\<not> has_hyperlink (render_item 0 ?it)"
    "iv_title (render_item 0 ?it) = RedSpan (item_title 0 ?it)"
    by simp_all
  with l t s show ?thesis by simp
qed

lemma sendMessage_calls_none: "sendMessage_calls (replicate n ReturnEarly) = []"
  by (induction n) simp_all

lemma trim_france_question: "trim france_question = france_question"
  by (simp add: trim_def france_question_def js_space_def)

text \<open>
  C7, as stated, has no reachable state of the page with two requests in flight. The
  handler reads the status of the render that made it: two submit events that reach the
  form of an idle render, before the page is rendered with the status \<^verbatim>\<open>submitted\<close>, both
  call \<^verbatim>\<open>sendMessage\<close>, and no stream has ended between the two calls.
\<close>

theorem two_submits_one_render_counterexample:
  "status ready_client = StReady \<and>
   handle_submits ready_client 2 = [SendMessage france_question, SendMessage france_question] \<and>
   sendMessage_calls (handle_submits ready_client 2) = [france_question, france_question] \<and>
   length (sendMessage_calls (handle_submits ready_client 2)) = 2"
  by (simp add: handle_submits_def onFormSubmit_def ready_client_def trim_france_question
        numeral_2_eq_2)
     (simp add: france_question_def)

text \<open>
  C7, amended. While the status the page was rendered with is \<^verbatim>\<open>streaming\<close> or
  \<^verbatim>\<open>submitted\<close>, a new submission is rejected at the input layer: the submit handler of that
  render returns without calling \<^verbatim>\<open>sendMessage\<close>, however many submit events reach it, and
  the input field and the submit button of that render are disabled.
\<close>

theorem busy_render_rejects_submit:
  "streaming_or_submitted c \<longrightarrow>
     onFormSubmit c = ReturnEarly \<and>
     sendMessage_calls (handle_submits c n) = [] \<and>
     input_disabled c \<and> button_disabled c"
  by (auto simp: streaming_or_submitted_def onFormSubmit_def handle_submits_def
        input_disabled_def button_disabled_def sendMessage_calls_none)

theorem busy_render_rejects_submit_witness:
  "streaming_or_submitted busy_client \<and>
   trim (input busy_client) \<noteq> [] \<and>
   onFormSubmit busy_client = ReturnEarly \<and>
   sendMessage_calls (handle_submits busy_client 2) = [] \<and>
   input_disabled busy_client \<and> button_disabled busy_client"
proof -
  have b: "streaming_or_submitted busy_client"
    by (simp add: busy_client_def streaming_or_submitted_def)
  have t: "trim (input busy_client) \<noteq> []"
    by (simp add: busy_client_def trim_france_question) (simp add: france_question_def)
  from busy_render_rejects_submit [of busy_client 2] b t show ?thesis by simp
qed

text \<open>
  C8. The expand state is a map from the key of a panel, the message id followed by a
  hyphen and the decimal index of the tool call, to a flag. At first no key is present, so
  no panel is expanded: a panel with results is drawn collapsed, with the button reading
  "Show". Toggling a key negates the flag of that key (an absent one counts as false) and
  leaves the entry of every other key as it was.
\<close>

theorem toggle_flips_one_key:
  "initial_expanded k = None \<and>
   \<not> is_expanded initial_expanded k \<and>
   (output_items tp \<noteq> [] \<longrightarrow>
      tp_key (render_panel initial_expanded mid index tp) = mid @ ''-'' @ decimal index \<and>
      tp_button (render_panel initial_expanded mid index tp) = Some ''Show'' \<and>
      tp_list (render_panel initial_expanded mid index tp) =
        Some (False, render_items (output_items tp))) \<and>
   is_expanded (toggle k prev) k = (\<not> is_expanded prev k) \<and>
   (k' \<noteq> k \<longrightarrow> toggle k prev k' = prev k' \<and>
                is_expanded (toggle k prev) k' = is_expanded prev k')"
  by (simp add: initial_expanded_def is_expanded_def toggle_def render_panel_def result_key_def
        Let_def)

lemma decimal_small: "decimal 0 = ''0''" "decimal 1 = ''1''"
  by code_simp+

theorem toggle_flips_one_key_witness:
  "output_items search_part \<noteq> [] \<and>
   tp_key (render_panel initial_expanded ''msg1'' 0 search_part) = ''msg1-0'' \<and>
   tp_button (render_panel initial_expanded ''msg1'' 0 search_part) = Some ''Show'' \<and>
   ''msg1-1'' \<noteq> ''msg1-0'' \<and>
   is_expanded (toggle ''msg1-0'' initial_expanded) ''msg1-0'' \<and>
   \<not> is_expanded (toggle ''msg1-0'' (toggle ''msg1-0'' initial_expanded)) ''msg1-0'' \<and>
   toggle ''msg1-0'' initial_expanded ''msg1-1'' = None"
proof -
  have o: "output_items search_part \<noteq> []"
    by (simp add: output_items_def search_part_def)
  have d: "''msg1-1'' \<noteq> ''msg1-0''" by simp
  note a = toggle_flips_one_key [of "''msg1-0''" search_part "''msg1''" 0 initial_expanded "''msg1-1''"]
  note b = toggle_flips_one_key [of "''msg1-0''" search_part "''msg1''" 0
             "toggle ''msg1-0'' initial_expanded" "''msg1-1''"]
  from a b o d show ?thesis
    by (simp add: decimal_small initial_expanded_def)
qed

text \<open>\<^verbatim>\<open>find\<close> returns the first match and does not look at what follows it.\<close>

lemma js_find_first:
  "\<forall>q \<in> set pre. \<not> P q \<Longrightarrow> P p \<Longrightarrow> js_find P (pre @ p # post) = Some p"
  by (induction pre) simp_all

lemma js_find_none: "\<forall>q \<in> set ps. \<not> P q \<Longrightarrow> js_find P ps = None"
  by (induction ps) simp_all

text \<open>
  C10. The text shown for a message is the text of the first part of type \<^verbatim>\<open>text\<close> (empty
  when that part carries none), whatever parts follow it, so a later text part is never
  shown; it is empty when no part has type \<^verbatim>\<open>text\<close> and when the message has no parts.
\<close>

theorem text_of_first_text_part:
  "(m_parts msg = Some (pre @ p # post) \<and> (\<forall>q \<in> set pre. p_type q \<noteq> ''text'') \<and>
      p_type p = ''text'' \<longrightarrow> message_text msg = nullish (p_text p) []) \<and>
   (m_parts msg = Some ps \<and> (\<forall>q \<in> set ps. p_type q \<noteq> ''text'') \<longrightarrow> message_text msg = []) \<and>
   (m_parts msg = None \<longrightarrow> message_text msg = [])"
proof (intro conjI impI)
  assume a: "m_parts msg = Some (pre @ p # post) \<and> (\<forall>q \<in> set pre. p_type q \<noteq> ''text'') \<and>
      p_type p = ''text''"
  then have "js_find (\<lambda>p. p_type p = ''text'') (pre @ p # post) = Some p"
    by (intro js_find_first) simp_all
  with a show "message_text msg = nullish (p_text p) []"
    by (simp add: message_text_def)
next
  assume a: "m_parts msg = Some ps \<and> (\<forall>q \<in> set ps. p_type q \<noteq> ''text'')"
  then have "js_find (\<lambda>p. p_type p = ''text'') ps = None"
    by (intro js_find_none) simp
  with a show "message_text msg = []"
    by (simp add: message_text_def)
next
  assume "m_parts msg = None"
  then show "message_text msg = []"
    by (simp add: message_text_def)
qed

theorem text_of_first_text_part_witness:
  "m_parts demo_message =
     Some ([search_part] @ text_part ''Paris.'' # [text_part ''It is on the Seine.'']) \<and>
   p_type search_part \<noteq> ''text'' \<and>
   p_type (text_part ''Paris.'') = ''text'' \<and>
   message_text demo_message = ''Paris.''"
proof -
  have m: "m_parts demo_message =
     Some ([search_part] @ text_part ''Paris.'' # [text_part ''It is on the Seine.''])"
    by (simp add: demo_message_def)
  have n: "\<forall>q \<in> set [search_part]. p_type q \<noteq> ''text''"
    by (simp add: search_part_def)
  have t: "p_type (text_part ''Paris.'') = ''text''"
    by (simp add: text_part_def)
  from text_of_first_text_part [of demo_message "[search_part]" "text_part ''Paris.''"
         "[text_part ''It is on the Seine.'']" "[]"] m n t
  have "message_text demo_message = nullish (p_text (text_part ''Paris.'')) []"
    by blast
  then have "message_text demo_message = ''Paris.''"
    by (simp add: text_part_def nullish_def)
  with m n t show ?thesis by simp
qed

end
